theory Spec2Isabelle
  imports Main
begin

section \<open>Tables\<close>

text \<open>
  The three mapped classes of \<^verbatim>\<open>main.py\<close>, one record per row. Primary keys are the
  positive integers the database hands out. The foreign-key columns \<^verbatim>\<open>author_id\<close> and
  \<^verbatim>\<open>blog_post_id\<close> carry no \<^verbatim>\<open>nullable=False\<close>, so they hold an id or NULL. The other
  columns are strings that the forms always supply; the declared lengths are not
  enforced by the default SQLite database and are left out.
\<close>

record user =
  user_id :: nat
  email :: string
  password :: string
  name :: string

record blog_post =
  post_id :: nat
  post_author_id :: "nat option"
  title :: string
  subtitle :: string
  date :: string
  body :: string
  img_url :: string

record comment =
  comment_id :: nat
  comment_author_id :: "nat option"
  blog_post_id :: "nat option"
  comment_text :: string

text \<open>The database: each table is the list of its rows, in insertion order.\<close>

record db =
  users :: "user list"
  blog_posts :: "blog_post list"
  comments :: "comment list"

text \<open>\<^verbatim>\<open>db.create_all()\<close> on a fresh database.\<close>

definition create_all :: db where
  "create_all = \<lparr>users = [], blog_posts = [], comments = []\<rparr>"

text \<open>An integer primary key without an explicit value: one more than the largest in the table.\<close>

definition next_id :: "nat list \<Rightarrow> nat" where
  "next_id ids = Suc (fold max ids 0)"

section \<open>Requests, replies and errors\<close>

datatype http_method = GET | HEAD | POST | PUT | PATCH | DELETE | OPTIONS

text \<open>
  What ends a request abnormally: \<^verbatim>\<open>abort(code)\<close> and the router's 405 are HTTP
  exceptions; the other three are exceptions nothing in \<^verbatim>\<open>main.py\<close> catches, which the
  framework answers with status 500.
  \<^item> \<open>AttributeError\<close>: an attribute read on \<^verbatim>\<open>None\<close>, or an object that is not a
    mapped instance assigned to a relationship;
  \<^item> \<open>UnmappedInstanceError\<close>: \<^verbatim>\<open>db.session.delete(None)\<close>;
  \<^item> \<open>IntegrityError c\<close>: the commit violates the \<^verbatim>\<open>unique=True\<close> constraint of column \<open>c\<close>.
\<close>

datatype error =
    HTTPException nat
  | AttributeError
  | UnmappedInstanceError
  | IntegrityError string

datatype page =
    Template string
  | RedirectTo string
  | AutomaticOptions

text \<open>
  The reply to one request: the response, the messages flashed, the database as committed,
  and the user id the login session holds afterwards.
\<close>

record reply =
  response :: "error + page"
  flashes :: "string list"
  store :: db
  session :: "nat option"

text \<open>
  \<^verbatim>\<open>abort\<close> and an uncaught exception leave everything as it was: the ORM session's
  pending changes are discarded with the request. The templates are not among the
  sources; a rendered page is recorded by the name of its template.
\<close>

definition raise :: "error \<Rightarrow> db \<Rightarrow> nat option \<Rightarrow> reply" where
  "raise e s sess = \<lparr>response = Inl e, flashes = [], store = s, session = sess\<rparr>"

definition abort :: "nat \<Rightarrow> db \<Rightarrow> nat option \<Rightarrow> reply" where
  "abort code s sess = raise (HTTPException code) s sess"

definition render_template :: "string \<Rightarrow> db \<Rightarrow> nat option \<Rightarrow> reply" where
  "render_template t s sess = \<lparr>response = Inr (Template t), flashes = [], store = s, session = sess\<rparr>"

definition redirect :: "string \<Rightarrow> string list \<Rightarrow> db \<Rightarrow> nat option \<Rightarrow> reply" where
  "redirect endpoint msgs s sess =
     \<lparr>response = Inr (RedirectTo endpoint), flashes = msgs, store = s, session = sess\<rparr>"

section \<open>Forms\<close>

text \<open>
  The module \<^verbatim>\<open>forms\<close> is not among the sources, so the data of each form is an input, and
  so is the verdict of its validators (\<open>valid\<close> below). Only \<^verbatim>\<open>validate_on_submit\<close> is
  fixed by the framework: the request must use a submitting method and the form must
  validate.
\<close>

record register_form =
  reg_email :: string
  reg_password :: string
  reg_name :: string

record login_form =
  login_email :: string
  login_password :: string

text \<open>
  \<^verbatim>\<open>edit_post\<close> reads \<^verbatim>\<open>edit_form.author.data\<close> and assigns it to the post's author
  relationship. What that field holds is decided by the missing module: \<open>Inl e\<close> when
  reading or assigning it raises \<open>e\<close>, \<open>Inr r\<close> when it denotes the author row \<open>r\<close>
  (or no author).
\<close>

record post_form =
  form_title :: string
  form_subtitle :: string
  form_img_url :: string
  form_body :: string
  form_author :: "error + nat option"

definition is_submitted :: "http_method \<Rightarrow> bool" where
  "is_submitted m = (m \<in> {POST, PUT, PATCH, DELETE})"

definition validate_on_submit :: "http_method \<Rightarrow> bool \<Rightarrow> bool" where
  "validate_on_submit m valid = (is_submitted m \<and> valid)"

section \<open>Identity and the admin check\<close>

datatype identity = AnonymousUser | LoggedIn user

fun is_anonymous :: "identity \<Rightarrow> bool" where
  "is_anonymous AnonymousUser = True"
| "is_anonymous (LoggedIn u) = False"

definition load_user :: "db \<Rightarrow> nat \<Rightarrow> user option" where
  "load_user s uid = find (\<lambda>u. user_id u = uid) (users s)"

text \<open>
  The login manager resolves the id kept in the session through \<open>load_user\<close>; no id, or an
  id without a row, is the anonymous user.
\<close>

definition current_user :: "db \<Rightarrow> nat option \<Rightarrow> identity" where
  "current_user s sess =
     (case sess of
        None \<Rightarrow> AnonymousUser
      | Some uid \<Rightarrow> (case load_user s uid of None \<Rightarrow> AnonymousUser | Some u \<Rightarrow> LoggedIn u))"

text \<open>The decorator: \<open>func\<close> is the wrapped view, already applied to its arguments.\<close>

definition admin_required ::
  "identity \<Rightarrow> (db \<Rightarrow> nat option \<Rightarrow> reply) \<Rightarrow> db \<Rightarrow> nat option \<Rightarrow> reply" where
  "admin_required cu func s sess =
     (if is_anonymous cu then abort 403 s sess
      else if (case cu of LoggedIn u \<Rightarrow> user_id u = 1 | AnonymousUser \<Rightarrow> False) then func s sess
      else abort 403 s sess)"

text \<open>\<^verbatim>\<open>login_required\<close> of the login manager, with no login view configured: 401.\<close>

definition login_required ::
  "identity \<Rightarrow> (db \<Rightarrow> nat option \<Rightarrow> reply) \<Rightarrow> db \<Rightarrow> nat option \<Rightarrow> reply" where
  "login_required cu func s sess =
     (if is_anonymous cu then abort 401 s sess else func s sess)"

section \<open>Commits\<close>

text \<open>
  \<^verbatim>\<open>db.session.add\<close> followed by \<^verbatim>\<open>db.session.commit\<close>. The commit is where the
  \<^verbatim>\<open>unique=True\<close> columns are checked.
\<close>

definition commit_user :: "db \<Rightarrow> string \<Rightarrow> string \<Rightarrow> string \<Rightarrow> error + db" where
  "commit_user s e pw n =
     (if e \<in> set (map email (users s)) then Inl (IntegrityError ''users.email'')
      else Inr (s\<lparr>users := users s @
             [\<lparr>user_id = next_id (map user_id (users s)), email = e, password = pw, name = n\<rparr>]\<rparr>))"

definition commit_post :: "db \<Rightarrow> blog_post \<Rightarrow> error + db" where
  "commit_post s p =
     (if title p \<in> set (map title (blog_posts s)) then Inl (IntegrityError ''blog_posts.title'')
      else Inr (s\<lparr>blog_posts := blog_posts s @
             [p\<lparr>post_id := next_id (map post_id (blog_posts s))\<rparr>]\<rparr>))"

definition commit_comment :: "db \<Rightarrow> comment \<Rightarrow> db" where
  "commit_comment s c =
     s\<lparr>comments := comments s @ [c\<lparr>comment_id := next_id (map comment_id (comments s))\<rparr>]\<rparr>"

text \<open>Committing a changed post: its title must not be that of another row.\<close>

definition commit_update :: "db \<Rightarrow> blog_post \<Rightarrow> error + db" where
  "commit_update s p =
     (if title p \<in> set (map title (filter (\<lambda>q. post_id q \<noteq> post_id p) (blog_posts s)))
      then Inl (IntegrityError ''blog_posts.title'')
      else Inr (s\<lparr>blog_posts := map (\<lambda>q. if post_id q = post_id p then p else q) (blog_posts s)\<rparr>))"

text \<open>
  Deleting a post: the \<^verbatim>\<open>comments\<close> relationship has no delete cascade, so the ORM sets
  the \<^verbatim>\<open>blog_post_id\<close> of the post's comments to NULL and then removes the row.
\<close>

definition orphan :: "nat \<Rightarrow> comment \<Rightarrow> comment" where
  "orphan pid c = (if blog_post_id c = Some pid then c\<lparr>blog_post_id := None\<rparr> else c)"

definition commit_delete :: "db \<Rightarrow> blog_post \<Rightarrow> db" where
  "commit_delete s p =
     s\<lparr>blog_posts := filter (\<lambda>q. post_id q \<noteq> post_id p) (blog_posts s),
       comments := map (orphan (post_id p)) (comments s)\<rparr>"

section \<open>The environment of a request\<close>

text \<open>
  \<^verbatim>\<open>generate_password_hash\<close> and \<^verbatim>\<open>check_password_hash\<close> are library functions, taken as
  parameters: the first maps the password and the random salt drawn at the call to the
  stored credential, the second takes the stored credential and the password entered.
  \<open>salt\<close> is the salt drawn during this request and \<open>today\<close> is
  \<^verbatim>\<open>date.today().strftime("%B %d, %Y")\<close>.
\<close>

record environ =
  generate_password_hash :: "string \<Rightarrow> string \<Rightarrow> string"
  check_password_hash :: "string \<Rightarrow> string \<Rightarrow> bool"
  salt :: string
  today :: string

section \<open>Views\<close>

definition get_all_posts :: "db \<Rightarrow> nat option \<Rightarrow> reply" where
  "get_all_posts s sess = render_template ''index.html'' s sess"

definition already_signed_up :: string where
  "already_signed_up =
     ''You'' @ [CHR 0x27] @ ''ve already signed up with that email. Please login instead.''"

definition register ::
  "environ \<Rightarrow> register_form \<Rightarrow> http_method \<Rightarrow> bool \<Rightarrow> db \<Rightarrow> nat option \<Rightarrow> reply" where
  "register env form m valid s sess =
     (if validate_on_submit m valid then
        (case find (\<lambda>u. email u = reg_email form) (users s) of
           None \<Rightarrow>
             (case commit_user s (reg_email form)
                     (generate_password_hash env (reg_password form) (salt env)) (reg_name form) of
                Inl e \<Rightarrow> raise e s sess
              | Inr s' \<Rightarrow>
                  redirect ''login'' [''Please login with your new email and password.''] s' sess)
         | Some check_user \<Rightarrow> redirect ''login'' [already_signed_up] s sess)
      else render_template ''register.html'' s sess)"

definition login ::
  "environ \<Rightarrow> login_form \<Rightarrow> http_method \<Rightarrow> bool \<Rightarrow> db \<Rightarrow> nat option \<Rightarrow> reply" where
  "login env form m valid s sess =
     (if validate_on_submit m valid then
        (case find (\<lambda>u. email u = login_email form) (users s) of
           None \<Rightarrow> redirect ''login'' [''That email or password is not correct.''] s sess
         | Some u \<Rightarrow>
             if check_password_hash env (password u) (login_password form)
             then redirect ''get_all_posts'' [] s (Some (user_id u))
             else redirect ''login'' [''That email or password is not correct.''] s sess)
      else render_template ''login.html'' s sess)"

definition logout :: "db \<Rightarrow> nat option \<Rightarrow> reply" where
  "logout s sess = redirect ''get_all_posts'' [] s None"

text \<open>
  \<^verbatim>\<open>new_comment.author = current_user\<close> comes first: the anonymous user is not a mapped
  instance, so the assignment raises before anything is added to the ORM session. A
  \<^verbatim>\<open>requested_post\<close> of \<^verbatim>\<open>None\<close> is assigned as it is and stored as NULL.
\<close>

definition show_post ::
  "nat \<Rightarrow> string \<Rightarrow> http_method \<Rightarrow> bool \<Rightarrow> db \<Rightarrow> nat option \<Rightarrow> reply" where
  "show_post pid comment_data m valid s sess =
     (let requested_post = find (\<lambda>p. post_id p = pid) (blog_posts s) in
      if validate_on_submit m valid then
        (case current_user s sess of
           AnonymousUser \<Rightarrow> raise AttributeError s sess
         | LoggedIn u \<Rightarrow>
             redirect ''show_post'' []
               (commit_comment s
                  \<lparr>comment_id = 0, comment_author_id = Some (user_id u),
                   blog_post_id = map_option post_id requested_post,
                   comment_text = comment_data\<rparr>) sess)
      else render_template ''post.html'' s sess)"

definition about :: "db \<Rightarrow> nat option \<Rightarrow> reply" where
  "about s sess = render_template ''about.html'' s sess"

definition contact :: "db \<Rightarrow> nat option \<Rightarrow> reply" where
  "contact s sess = render_template ''contact.html'' s sess"

text \<open>The view carries no decorator; \<^verbatim>\<open>author=current_user\<close> raises for the anonymous user.\<close>

definition add_new_post ::
  "environ \<Rightarrow> post_form \<Rightarrow> http_method \<Rightarrow> bool \<Rightarrow> db \<Rightarrow> nat option \<Rightarrow> reply" where
  "add_new_post env form m valid s sess =
     (if validate_on_submit m valid then
        (case current_user s sess of
           AnonymousUser \<Rightarrow> raise AttributeError s sess
         | LoggedIn u \<Rightarrow>
             (case commit_post s
                     \<lparr>post_id = 0, post_author_id = Some (user_id u), title = form_title form,
                      subtitle = form_subtitle form, date = today env, body = form_body form,
                      img_url = form_img_url form\<rparr> of
                Inl e \<Rightarrow> raise e s sess
              | Inr s' \<Rightarrow> redirect ''get_all_posts'' [] s' sess))
      else render_template ''make-post.html'' s sess)"

text \<open>
  The body of \<^verbatim>\<open>edit_post\<close>, under its decorator in \<open>handle\<close> below. \<^verbatim>\<open>post.title\<close> on a
  missing post raises while the form is built.
\<close>

definition edit_post ::
  "nat \<Rightarrow> post_form \<Rightarrow> http_method \<Rightarrow> bool \<Rightarrow> db \<Rightarrow> nat option \<Rightarrow> reply" where
  "edit_post pid form m valid s sess =
     (case find (\<lambda>p. post_id p = pid) (blog_posts s) of
        None \<Rightarrow> raise AttributeError s sess
      | Some post \<Rightarrow>
          if validate_on_submit m valid then
            (case form_author form of
               Inl e \<Rightarrow> raise e s sess
             | Inr a \<Rightarrow>
                 (case commit_update s
                         (post\<lparr>title := form_title form, subtitle := form_subtitle form,
                               img_url := form_img_url form, post_author_id := a,
                               body := form_body form\<rparr>) of
                    Inl e \<Rightarrow> raise e s sess
                  | Inr s' \<Rightarrow> redirect ''show_post'' [] s' sess))
          else render_template ''make-post.html'' s sess)"

definition delete_post :: "nat \<Rightarrow> db \<Rightarrow> nat option \<Rightarrow> reply" where
  "delete_post pid s sess =
     (case find (\<lambda>p. post_id p = pid) (blog_posts s) of
        None \<Rightarrow> raise UnmappedInstanceError s sess
      | Some post_to_delete \<Rightarrow>
          redirect ''get_all_posts'' [] (commit_delete s post_to_delete) sess)"

section \<open>Routing\<close>

text \<open>
  \<^verbatim>\<open>@app.route(rule, methods=...)\<close>: a rule that accepts GET accepts HEAD as well, OPTIONS
  is answered by the framework without calling the view, and any other method that is not
  listed is refused with 405. Without \<^verbatim>\<open>methods\<close> the list is GET alone.
\<close>

definition route ::
  "http_method list \<Rightarrow> http_method \<Rightarrow> (db \<Rightarrow> nat option \<Rightarrow> reply) \<Rightarrow> db \<Rightarrow> nat option \<Rightarrow> reply" where
  "route methods m view s sess =
     (if m = OPTIONS
      then \<lparr>response = Inr AutomaticOptions, flashes = [], store = s, session = sess\<rparr>
      else if m \<in> set methods \<or> (m = HEAD \<and> GET \<in> set methods) then view s sess
      else abort 405 s sess)"

datatype target =
    Index
  | Register register_form
  | Login login_form
  | Logout
  | ShowPost nat string
  | About
  | Contact
  | NewPost post_form
  | EditPost nat post_form
  | DeletePost nat

record request =
  req_method :: http_method
  req_target :: target
  form_valid :: bool

definition handle :: "environ \<Rightarrow> request \<Rightarrow> db \<Rightarrow> nat option \<Rightarrow> reply" where
  "handle env req s sess =
     (let m = req_method req; v = form_valid req; cu = current_user s sess in
      case req_target req of
        Index \<Rightarrow> route [GET] m get_all_posts s sess
      | Register f \<Rightarrow> route [GET, POST] m (register env f m v) s sess
      | Login f \<Rightarrow> route [GET, POST] m (login env f m v) s sess
      | Logout \<Rightarrow> route [GET] m (login_required cu logout) s sess
      | ShowPost pid c \<Rightarrow> route [GET, POST] m (show_post pid c m v) s sess
      | About \<Rightarrow> route [GET] m about s sess
      | Contact \<Rightarrow> route [GET] m contact s sess
      | NewPost f \<Rightarrow> route [GET, POST] m (add_new_post env f m v) s sess
      | EditPost pid f \<Rightarrow> route [GET] m (admin_required cu (edit_post pid f m v)) s sess
      | DeletePost pid \<Rightarrow> route [GET] m (admin_required cu (delete_post pid)) s sess)"

text \<open>The databases the application can reach from a fresh one, one request at a time.\<close>

inductive reachable :: "db \<Rightarrow> bool" where
  fresh: "reachable create_all"
| request: "reachable s \<Longrightarrow> reachable (store (handle env req s sess))"

section \<open>Properties of the database\<close>

text \<open>
  What one request can do to the database: nothing, or one of the four commits. A new
  comment carries the id of a user row and the id of a post row or NULL.
\<close>

definition effect :: "db \<Rightarrow> db \<Rightarrow> bool" where
  "effect s s' \<longleftrightarrow>
     s' = s
   \<or> (\<exists>e pw n. commit_user s e pw n = Inr s')
   \<or> (\<exists>p. commit_post s p = Inr s')
   \<or> (\<exists>u p c. u \<in> set (users s) \<and> (p = None \<or> (\<exists>q \<in> set (blog_posts s). p = Some (post_id q))) \<and>
        s' = commit_comment s \<lparr>comment_id = 0, comment_author_id = Some (user_id u),
               blog_post_id = p, comment_text = c\<rparr>)
   \<or> (\<exists>p \<in> set (blog_posts s). s' = commit_delete s p)"

text \<open>\<^verbatim>\<open>primary_key=True\<close> on \<^verbatim>\<open>users.id\<close> and \<^verbatim>\<open>blog_posts.id\<close>.\<close>

definition primary_keys :: "db \<Rightarrow> bool" where
  "primary_keys s \<longleftrightarrow> distinct (map user_id (users s)) \<and> distinct (map post_id (blog_posts s))"

text \<open>The rows a comment's two foreign keys select.\<close>

definition author_rows :: "db \<Rightarrow> comment \<Rightarrow> user list" where
  "author_rows s c = filter (\<lambda>u. comment_author_id c = Some (user_id u)) (users s)"

definition parent_rows :: "db \<Rightarrow> comment \<Rightarrow> blog_post list" where
  "parent_rows s c = filter (\<lambda>p. blog_post_id c = Some (post_id p)) (blog_posts s)"

text \<open>Every comment has exactly one author row and exactly one parent post row.\<close>

definition comments_attached :: "db \<Rightarrow> bool" where
  "comments_attached s \<longleftrightarrow>
     (\<forall>c \<in> set (comments s). length (author_rows s c) = 1 \<and> length (parent_rows s c) = 1)"

text \<open>
  Every comment has exactly one author row, and its parent reference is NULL or selects
  exactly one post row.
\<close>

definition comments_not_dangling :: "db \<Rightarrow> bool" where
  "comments_not_dangling s \<longleftrightarrow>
     (\<forall>c \<in> set (comments s).
        length (author_rows s c) = 1 \<and> (blog_post_id c = None \<or> length (parent_rows s c) = 1))"

section \<open>Example data\<close>

text \<open>
  A stand-in for the hashing pair (not the library's algorithm), two users of whom the
  first is the administrator, one post and one comment.
\<close>

definition example_env :: environ where
  "example_env =
     \<lparr>generate_password_hash = (\<lambda>pw salt. salt @ rev pw),
      check_password_hash = (\<lambda>pwhash pw. drop 2 pwhash = rev pw),
      salt = ''s8'', today = ''November 03, 2026''\<rparr>"

definition alice :: user where
  "alice = \<lparr>user_id = 1, email = ''alice@example.com'', password = ''s8wp'', name = ''Alice''\<rparr>"

definition bob :: user where
  "bob = \<lparr>user_id = 2, email = ''bob@example.com'', password = ''s8dc'', name = ''Bob''\<rparr>"

definition hello_world :: blog_post where
  "hello_world =
     \<lparr>post_id = 1, post_author_id = Some 1, title = ''Hello World'', subtitle = ''First'',
      date = ''November 03, 2026'', body = ''Text'', img_url = ''http://example.com/a.png''\<rparr>"

definition nice_post :: comment where
  "nice_post =
     \<lparr>comment_id = 1, comment_author_id = Some 2, blog_post_id = Some 1,
      comment_text = ''Nice post''\<rparr>"

definition example_db :: db where
  "example_db = \<lparr>users = [alice, bob], blog_posts = [hello_world], comments = [nice_post]\<rparr>"

definition second_form :: post_form where
  "second_form =
     \<lparr>form_title = ''Second'', form_subtitle = ''Again'', form_img_url = ''http://example.com/b.png'',
      form_body = ''More'', form_author = Inr (Some 1)\<rparr>"

definition hello_form :: post_form where
  "hello_form =
     \<lparr>form_title = ''Hello World'', form_subtitle = ''First'',
      form_img_url = ''http://example.com/a.png'', form_body = ''Text'', form_author = Inr (Some 1)\<rparr>"

section \<open>Basic facts\<close>

lemma fold_max_start: "a \<le> fold max ids (a::nat)"
proof (induction ids arbitrary: a)
  case Nil
  show ?case by simp
next
  case (Cons i ids)
  have "a \<le> max i a" by simp
  also have "max i a \<le> fold max ids (max i a)" by (rule Cons.IH)
  finally show ?case by simp
qed

lemma fold_max_ge: "x \<in> set ids \<Longrightarrow> x \<le> fold max ids (a::nat)"
proof (induction ids arbitrary: a)
  case Nil
  then show ?case by simp
next
  case (Cons i ids)
  show ?case
  proof (cases "x = i")
    case True
    have "x \<le> max i a" using True by simp
    also have "max i a \<le> fold max ids (max i a)" by (rule fold_max_start)
    finally show ?thesis by simp
  next
    case False
    with Cons.prems have "x \<in> set ids" by simp
    then show ?thesis using Cons.IH by simp
  qed
qed

lemma next_id_fresh: "next_id ids \<notin> set ids"
proof
  assume "next_id ids \<in> set ids"
  then have "next_id ids \<le> fold max ids 0" by (rule fold_max_ge)
  then show False by (simp add: next_id_def)
qed

lemma raise_simps [simp]:
  "store (raise e s sess) = s" "session (raise e s sess) = sess"
  "response (raise e s sess) = Inl e" "flashes (raise e s sess) = []"
  by (simp_all add: raise_def)

lemma abort_simps [simp]:
  "store (abort c s sess) = s" "session (abort c s sess) = sess"
  "response (abort c s sess) = Inl (HTTPException c)" "flashes (abort c s sess) = []"
  by (simp_all add: abort_def)

lemma render_template_simps [simp]:
  "store (render_template t s sess) = s" "session (render_template t s sess) = sess"
  "response (render_template t s sess) = Inr (Template t)" "flashes (render_template t s sess) = []"
  by (simp_all add: render_template_def)

lemma redirect_simps [simp]:
  "store (redirect t ms s sess) = s" "session (redirect t ms s sess) = sess"
  "response (redirect t ms s sess) = Inr (RedirectTo t)" "flashes (redirect t ms s sess) = ms"
  by (simp_all add: redirect_def)

lemma current_user_in_store: "current_user s sess = LoggedIn u \<Longrightarrow> u \<in> set (users s)"
  by (auto simp: current_user_def load_user_def find_Some_iff split: option.splits)

lemma find_in_set: "find P xs = Some x \<Longrightarrow> x \<in> set xs"
  by (auto simp: find_Some_iff)

lemma store_register:
  "store (register env f m v s sess) = s \<or>
   (\<exists>e pw n. commit_user s e pw n = Inr (store (register env f m v s sess)))"
  by (auto simp: register_def split: option.splits sum.splits)

lemma store_login: "store (login env f m v s sess) = s"
  by (simp add: login_def split: option.splits)

lemma store_show_post:
  "store (show_post pid c m v s sess) = s \<or>
   (\<exists>u p. u \<in> set (users s) \<and> (p = None \<or> (\<exists>q \<in> set (blog_posts s). p = Some (post_id q))) \<and>
      store (show_post pid c m v s sess) =
        commit_comment s \<lparr>comment_id = 0, comment_author_id = Some (user_id u), blog_post_id = p, comment_text = c\<rparr>)"
proof (cases "validate_on_submit m v")
  case False
  then show ?thesis by (simp add: show_post_def)
next
  case True
  show ?thesis
  proof (cases "current_user s sess")
    case AnonymousUser
    with True show ?thesis by (simp add: show_post_def)
  next
    case (LoggedIn u)
    then have u: "u \<in> set (users s)" by (rule current_user_in_store)
    let ?p = "map_option post_id (find (\<lambda>p. post_id p = pid) (blog_posts s))"
    have p: "?p = None \<or> (\<exists>q \<in> set (blog_posts s). ?p = Some (post_id q))"
      by (cases "find (\<lambda>p. post_id p = pid) (blog_posts s)") (auto dest: find_in_set)
    have eq: "store (show_post pid c m v s sess) =
        commit_comment s \<lparr>comment_id = 0, comment_author_id = Some (user_id u),
          blog_post_id = ?p, comment_text = c\<rparr>"
      using True LoggedIn by (simp add: show_post_def)
    show ?thesis
      by (rule disjI2, rule exI [of _ u], rule exI [of _ ?p], rule conjI [OF u conjI [OF p eq]])
  qed
qed

lemma store_add_new_post:
  "store (add_new_post env f m v s sess) = s \<or>
   (\<exists>p. commit_post s p = Inr (store (add_new_post env f m v s sess)))"
  by (auto simp: add_new_post_def split: identity.splits sum.splits)

lemma store_delete_post:
  "store (delete_post pid s sess) = s \<or>
   (\<exists>p \<in> set (blog_posts s). store (delete_post pid s sess) = commit_delete s p)"
  by (auto simp: delete_post_def dest: find_in_set split: option.splits)

lemma store_route:
  "store (route ms m view s sess) = s \<or> store (route ms m view s sess) = store (view s sess)"
  by (simp add: route_def)

lemma store_admin_required:
  "store (admin_required cu view s sess) = s \<or> store (admin_required cu view s sess) = store (view s sess)"
  by (simp add: admin_required_def)

lemma store_edit_post_get: "\<not> is_submitted m \<Longrightarrow> store (edit_post pid f m v s sess) = s"
  by (simp add: edit_post_def validate_on_submit_def split: option.splits)

lemma route_get_only:
  "route [GET] m view s sess =
     (if m = OPTIONS then \<lparr>response = Inr AutomaticOptions, flashes = [], store = s, session = sess\<rparr>
      else if m = GET \<or> m = HEAD then view s sess else abort 405 s sess)"
  by (auto simp: route_def)

lemma store_edit_route:
  "store (route [GET] m (admin_required cu (edit_post pid f m v)) s sess) = s"
proof -
  have "store (admin_required cu (edit_post pid f m v) s sess) = s" if "m = GET \<or> m = HEAD"
    using store_admin_required [of cu "edit_post pid f m v" s sess] that
    by (auto simp: store_edit_post_get is_submitted_def)
  then show ?thesis by (simp add: route_get_only)
qed

lemma effect_refl: "effect s s"
  by (simp add: effect_def)

lemma effect_route: "effect s (store (view s sess)) \<Longrightarrow> effect s (store (route ms m view s sess))"
  using store_route [of ms m view s sess] by (auto simp: effect_refl)

lemma effect_admin_required:
  "effect s (store (view s sess)) \<Longrightarrow> effect s (store (admin_required cu view s sess))"
  using store_admin_required [of cu view s sess] by (auto simp: effect_refl)

lemma handle_effect: "effect s (store (handle env req s sess))"
proof (cases "req_target req")
  case Index
  then show ?thesis by (simp add: handle_def Let_def effect_route get_all_posts_def effect_refl)
next
  case (Register f)
  have "effect s (store (register env f (req_method req) (form_valid req) s sess))"
    using store_register [of env f "req_method req" "form_valid req" s sess]
    unfolding effect_def by blast
  with Register show ?thesis by (simp add: handle_def Let_def effect_route)
next
  case (Login f)
  then show ?thesis by (simp add: handle_def Let_def effect_route store_login effect_refl)
next
  case Logout
  then show ?thesis
    by (simp add: handle_def Let_def effect_route login_required_def logout_def effect_refl)
next
  case (ShowPost pid c)
  have "effect s (store (show_post pid c (req_method req) (form_valid req) s sess))"
    using store_show_post [of pid c "req_method req" "form_valid req" s sess]
    unfolding effect_def by blast
  with ShowPost show ?thesis by (simp add: handle_def Let_def effect_route)
next
  case About
  then show ?thesis by (simp add: handle_def Let_def effect_route about_def effect_refl)
next
  case Contact
  then show ?thesis by (simp add: handle_def Let_def effect_route contact_def effect_refl)
next
  case (NewPost f)
  have "effect s (store (add_new_post env f (req_method req) (form_valid req) s sess))"
    using store_add_new_post [of env f "req_method req" "form_valid req" s sess]
    unfolding effect_def by blast
  with NewPost show ?thesis by (simp add: handle_def Let_def effect_route)
next
  case (EditPost pid f)
  then show ?thesis by (simp add: handle_def Let_def store_edit_route effect_refl)
next
  case (DeletePost pid)
  have "effect s (store (delete_post pid s sess))"
    using store_delete_post [of pid s sess] unfolding effect_def by blast
  with DeletePost show ?thesis by (simp add: handle_def Let_def effect_route effect_admin_required)
qed

section \<open>What a request preserves\<close>

subsection \<open>Titles\<close>

lemma titles_effect:
  assumes "effect s s'" and "distinct (map title (blog_posts s))"
  shows "distinct (map title (blog_posts s'))"
proof -
  have user: "distinct (map title (blog_posts s'))" if "commit_user s e pw n = Inr s'" for e pw n
    using that assms(2) by (auto simp: commit_user_def split: if_splits)
  have post: "distinct (map title (blog_posts s'))" if "commit_post s p = Inr s'" for p
    using that assms(2) by (auto simp: commit_post_def split: if_splits)
  have del: "distinct (map title (blog_posts (commit_delete s p)))" for p
    using assms(2) by (simp add: commit_delete_def distinct_map_filter)
  have com: "distinct (map title (blog_posts (commit_comment s c)))" for c
    using assms(2) by (simp add: commit_comment_def)
  from assms(1) show ?thesis
    unfolding effect_def using user post del com assms(2) by blast
qed

lemma reachable_titles: "reachable s \<Longrightarrow> distinct (map title (blog_posts s))"
proof (induction rule: reachable.induct)
  case fresh
  show ?case by (simp add: create_all_def)
next
  case (request s env req sess)
  then show ?case using titles_effect [OF handle_effect] by blast
qed

subsection \<open>Keys and references\<close>

lemma primary_keys_effect:
  assumes "effect s s'" and "primary_keys s"
  shows "primary_keys s'"
proof -
  have user: "primary_keys s'" if "commit_user s e pw n = Inr s'" for e pw n
    using that assms(2) next_id_fresh [of "map user_id (users s)"]
    by (auto simp: commit_user_def primary_keys_def split: if_splits)
  have post: "primary_keys s'" if "commit_post s p = Inr s'" for p
    using that assms(2) next_id_fresh [of "map post_id (blog_posts s)"]
    by (auto simp: commit_post_def primary_keys_def split: if_splits)
  have del: "primary_keys (commit_delete s p)" for p
    using assms(2) by (simp add: commit_delete_def primary_keys_def distinct_map_filter)
  have com: "primary_keys (commit_comment s c)" for c
    using assms(2) by (simp add: commit_comment_def primary_keys_def)
  from assms(1) show ?thesis
    unfolding effect_def using user post del com assms(2) by blast
qed

lemma one_row:
  assumes "distinct (map f xs)" and "x \<in> set xs"
  shows "length (filter (\<lambda>y. Some (f x) = Some (f y)) xs) = 1"
  using assms
proof (induction xs)
  case Nil
  then show ?case by simp
next
  case (Cons a xs)
  show ?case
  proof (cases "f a = f x")
    case True
    with Cons.prems have "\<forall>y \<in> set xs. f y \<noteq> f x" by (force simp: image_iff)
    then have "filter (\<lambda>y. f x = f y) xs = []" by (auto simp: filter_empty_conv)
    with True show ?thesis by simp
  next
    case False
    with Cons.prems have "x \<in> set xs" by auto
    with Cons.IH Cons.prems False show ?thesis by simp
  qed
qed


lemma some_row: "length (filter P xs) = Suc 0 \<Longrightarrow> \<exists>x \<in> set xs. P x"
proof -
  assume "length (filter P xs) = Suc 0"
  then have "filter P xs \<noteq> []" by auto
  then show ?thesis by (simp add: filter_empty_conv)
qed

lemma author_rows_commit_user:
  assumes "commit_user s e pw n = Inr s'" and "length (author_rows s c) = 1"
  shows "length (author_rows s' c) = 1"
proof -
  from assms(2) obtain u where u: "u \<in> set (users s)" "comment_author_id c = Some (user_id u)"
    using some_row [of "\<lambda>u. comment_author_id c = Some (user_id u)" "users s"]
    by (auto simp: author_rows_def)
  have "next_id (map user_id (users s)) \<noteq> user_id u"
    using next_id_fresh [of "map user_id (users s)"] u(1) by force
  with assms u(2) show ?thesis
    by (auto simp: commit_user_def author_rows_def split: if_splits)
qed

lemma parent_rows_commit_post:
  assumes "commit_post s p = Inr s'" and "length (parent_rows s c) = 1"
  shows "length (parent_rows s' c) = 1"
proof -
  from assms(2) obtain q where q: "q \<in> set (blog_posts s)" "blog_post_id c = Some (post_id q)"
    using some_row [of "\<lambda>q. blog_post_id c = Some (post_id q)" "blog_posts s"]
    by (auto simp: parent_rows_def)
  have "next_id (map post_id (blog_posts s)) \<noteq> post_id q"
    using next_id_fresh [of "map post_id (blog_posts s)"] q(1) by force
  with assms q(2) show ?thesis
    by (auto simp: commit_post_def parent_rows_def split: if_splits)
qed

lemma not_dangling_commit_user:
  assumes "commit_user s e pw n = Inr s'" and "comments_not_dangling s"
  shows "comments_not_dangling s'"
  unfolding comments_not_dangling_def
proof
  fix c assume "c \<in> set (comments s')"
  with assms(1) have c: "c \<in> set (comments s)"
    by (auto simp: commit_user_def split: if_splits)
  with assms(2) have a: "length (author_rows s c) = 1"
    and p: "blog_post_id c = None \<or> length (parent_rows s c) = 1"
    by (auto simp: comments_not_dangling_def)
  have "parent_rows s' c = parent_rows s c"
    using assms(1) by (auto simp: commit_user_def parent_rows_def split: if_splits)
  with p author_rows_commit_user [OF assms(1) a]
  show "length (author_rows s' c) = 1 \<and> (blog_post_id c = None \<or> length (parent_rows s' c) = 1)"
    by simp
qed

lemma not_dangling_commit_post:
  assumes "commit_post s p = Inr s'" and "comments_not_dangling s"
  shows "comments_not_dangling s'"
  unfolding comments_not_dangling_def
proof
  fix c assume "c \<in> set (comments s')"
  with assms(1) have c: "c \<in> set (comments s)"
    by (auto simp: commit_post_def split: if_splits)
  with assms(2) have a: "length (author_rows s c) = 1"
    and p: "blog_post_id c = None \<or> length (parent_rows s c) = 1"
    by (auto simp: comments_not_dangling_def)
  have "author_rows s' c = author_rows s c"
    using assms(1) by (auto simp: commit_post_def author_rows_def split: if_splits)
  with a p parent_rows_commit_post [OF assms(1)]
  show "length (author_rows s' c) = 1 \<and> (blog_post_id c = None \<or> length (parent_rows s' c) = 1)"
    by auto
qed

lemma not_dangling_commit_comment:
  assumes keys: "primary_keys s" and inv: "comments_not_dangling s"
    and u: "u \<in> set (users s)"
    and p: "p = None \<or> (\<exists>q \<in> set (blog_posts s). p = Some (post_id q))"
  shows "comments_not_dangling (commit_comment s
           \<lparr>comment_id = 0, comment_author_id = Some (user_id u), blog_post_id = p,
            comment_text = t\<rparr>)"
proof -
  let ?c = "\<lparr>comment_id = next_id (map comment_id (comments s)),
             comment_author_id = Some (user_id u), blog_post_id = p, comment_text = t\<rparr>"
  let ?s' = "s\<lparr>comments := comments s @ [?c]\<rparr>"
  have a: "length (author_rows ?s' ?c) = 1"
    using one_row [of user_id "users s" u] keys u by (simp add: author_rows_def primary_keys_def)
  have b: "blog_post_id ?c = None \<or> length (parent_rows ?s' ?c) = 1"
  proof (cases p)
    case None
    then show ?thesis by simp
  next
    case (Some i)
    with p obtain q where "q \<in> set (blog_posts s)" "p = Some (post_id q)" by auto
    then show ?thesis
      using one_row [of post_id "blog_posts s" q] keys by (simp add: parent_rows_def primary_keys_def)
  qed
  have old: "length (author_rows ?s' c) = 1 \<and> (blog_post_id c = None \<or> length (parent_rows ?s' c) = 1)"
    if "c \<in> set (comments s)" for c
    using that inv by (simp add: comments_not_dangling_def author_rows_def parent_rows_def)
  from a b old show ?thesis
    by (auto simp: comments_not_dangling_def commit_comment_def)
qed

lemma not_dangling_commit_delete:
  assumes "comments_not_dangling s"
  shows "comments_not_dangling (commit_delete s p)"
  unfolding comments_not_dangling_def
proof
  fix c' assume "c' \<in> set (comments (commit_delete s p))"
  then obtain c where c: "c \<in> set (comments s)" and c': "c' = orphan (post_id p) c"
    by (auto simp: commit_delete_def)
  from c assms have a: "length (author_rows s c) = 1"
    and b: "blog_post_id c = None \<or> length (parent_rows s c) = 1"
    by (auto simp: comments_not_dangling_def)
  have 1: "author_rows (commit_delete s p) c' = author_rows s c"
    by (simp add: c' orphan_def author_rows_def commit_delete_def)
  have 2: "blog_post_id c' = None \<or> parent_rows (commit_delete s p) c' = parent_rows s c"
  proof (cases "blog_post_id c = Some (post_id p)")
    case True
    then show ?thesis by (simp add: c' orphan_def)
  next
    case False
    then have "filter (\<lambda>q. blog_post_id c = Some (post_id q))
        (filter (\<lambda>q. post_id q \<noteq> post_id p) (blog_posts s)) =
      filter (\<lambda>q. blog_post_id c = Some (post_id q)) (blog_posts s)"
      by (auto intro: filter_cong)
    with False show ?thesis
      by (simp add: c' orphan_def parent_rows_def commit_delete_def)
  qed
  from a b 1 2
  show "length (author_rows (commit_delete s p) c') = 1 \<and>
        (blog_post_id c' = None \<or> length (parent_rows (commit_delete s p) c') = 1)"
    by (auto simp: c' orphan_def)
qed

lemma not_dangling_effect:
  assumes "effect s s'" and "primary_keys s" and "comments_not_dangling s"
  shows "comments_not_dangling s'"
  using assms(1) unfolding effect_def
  using not_dangling_commit_user [OF _ assms(3)] not_dangling_commit_post [OF _ assms(3)]
    not_dangling_commit_comment [OF assms(2) assms(3)] not_dangling_commit_delete [OF assms(3)]
    assms(3)
  by blast

section \<open>The example database is reachable\<close>

lemma submit_post: "validate_on_submit POST True"
  by (simp add: validate_on_submit_def is_submitted_def)

lemma example_db_reachable: "reachable example_db"
proof -
  let ?e = example_env
  let ?s1 = "\<lparr>users = [alice], blog_posts = [], comments = []\<rparr>"
  let ?s2 = "\<lparr>users = [alice, bob], blog_posts = [], comments = []\<rparr>"
  let ?s3 = "\<lparr>users = [alice, bob], blog_posts = [hello_world], comments = []\<rparr>"
  have 1: "store (handle ?e \<lparr>req_method = POST,
      req_target = Register \<lparr>reg_email = ''alice@example.com'', reg_password = ''pw'', reg_name = ''Alice''\<rparr>,
      form_valid = True\<rparr> create_all None) = ?s1"
    by (simp add: handle_def route_def register_def submit_post commit_user_def next_id_def
        create_all_def example_env_def alice_def)
  have 2: "store (handle ?e \<lparr>req_method = POST,
      req_target = Register \<lparr>reg_email = ''bob@example.com'', reg_password = ''cd'', reg_name = ''Bob''\<rparr>,
      form_valid = True\<rparr> ?s1 None) = ?s2"
    by (simp add: handle_def route_def register_def submit_post commit_user_def next_id_def
        example_env_def alice_def bob_def)
  have 3: "store (handle ?e \<lparr>req_method = POST, req_target = NewPost hello_form,
      form_valid = True\<rparr> ?s2 (Some 1)) = ?s3"
    by (simp add: handle_def route_def add_new_post_def submit_post commit_post_def next_id_def
        current_user_def load_user_def example_env_def alice_def bob_def hello_form_def
        hello_world_def)
  have 4: "store (handle ?e \<lparr>req_method = POST, req_target = ShowPost 1 ''Nice post'',
      form_valid = True\<rparr> ?s3 (Some 2)) = example_db"
    by (simp add: handle_def route_def show_post_def submit_post commit_comment_def next_id_def
        current_user_def load_user_def example_db_def alice_def bob_def hello_world_def
        nice_post_def)
  have "reachable ?s1" using reachable.request [OF reachable.fresh] 1 by metis
  then have "reachable ?s2" using reachable.request 2 by metis
  then have "reachable ?s3" using reachable.request 3 by metis
  then show ?thesis using reachable.request 4 by metis
qed

section \<open>The delete route for the administrator\<close>

lemma delete_route_by_admin:
  assumes admin: "current_user s sess = LoggedIn u" "user_id u = 1"
    and found: "find (\<lambda>p. post_id p = pid) (blog_posts s) = Some p"
  shows "store (handle env \<lparr>req_method = GET, req_target = DeletePost pid, form_valid = v\<rparr> s sess) =
           commit_delete s p"
  using assms by (simp add: handle_def route_def admin_required_def delete_post_def)

section \<open>Creating a post\<close>

text \<open>
  Claim C1 says that a request to create a post from anyone but the administrator is
  refused with 403 and adds no post. \<^verbatim>\<open>add_new_post\<close> is the one post-changing view
  without the \<^verbatim>\<open>admin_required\<close> decorator: here Bob, whose id is 2, submits the form and
  the post is stored under his id, and an anonymous GET is answered with the form.
\<close>

theorem add_new_post_open_to_everyone:
  "current_user example_db (Some 2) = LoggedIn bob \<and> user_id bob \<noteq> 1 \<and>
   handle example_env \<lparr>req_method = POST, req_target = NewPost second_form, form_valid = True\<rparr>
       example_db (Some 2) =
     \<lparr>response = Inr (RedirectTo ''get_all_posts''), flashes = [],
      store = example_db\<lparr>blog_posts :=
        [hello_world,
         \<lparr>post_id = 2, post_author_id = Some 2, title = ''Second'', subtitle = ''Again'',
          date = ''November 03, 2026'', body = ''More'', img_url = ''http://example.com/b.png''\<rparr>]\<rparr>,
      session = Some 2\<rparr> \<and>
   handle example_env \<lparr>req_method = GET, req_target = NewPost second_form, form_valid = False\<rparr>
       example_db None =
     \<lparr>response = Inr (Template ''make-post.html''), flashes = [], store = example_db,
      session = None\<rparr>"
  by (simp add: handle_def route_def add_new_post_def validate_on_submit_def is_submitted_def
      current_user_def load_user_def commit_post_def next_id_def redirect_def render_template_def
      example_db_def example_env_def alice_def bob_def hello_world_def second_form_def)

section \<open>Commenting\<close>

text \<open>
  Claim C2 says that a comment submitted by the anonymous user fails with an
  Unauthenticated outcome and stores nothing. For every post id, comment text and
  database, the submission without a login session stores nothing, but what ends it is
  the uncaught \<open>AttributeError\<close> of the author assignment (status 500): the view has
  no login check.
\<close>

theorem anonymous_comment_crashes:
  "handle env \<lparr>req_method = POST, req_target = ShowPost pid c, form_valid = True\<rparr> s None =
     \<lparr>response = Inl AttributeError, flashes = [], store = s, session = None\<rparr>"
  by (simp add: handle_def route_def show_post_def validate_on_submit_def is_submitted_def
      current_user_def raise_def)

section \<open>Comment references\<close>

text \<open>
  Claim C3 says that every operation preserves: each comment references exactly one
  existing user and exactly one existing post. Deleting a post breaks it: in the example
  database every comment is attached, and after the administrator deletes post 1 its
  comment is still there, with no parent post.
\<close>

theorem deleting_post_orphans_comment_counterexample:
  "comments_attached example_db \<and>
   \<not> comments_attached (store (handle example_env
      \<lparr>req_method = GET, req_target = DeletePost 1, form_valid = False\<rparr> example_db (Some 1)))"
  by (simp add: comments_attached_def author_rows_def parent_rows_def
      handle_def route_def admin_required_def delete_post_def
      current_user_def load_user_def commit_delete_def orphan_def
      example_db_def alice_def bob_def hello_world_def nice_post_def)

text \<open>
  Claim C3, amended. In a database whose primary keys are unique, every request
  preserves: each comment references exactly one existing user as its author, and its
  parent reference is NULL or references exactly one existing post; primary keys stay
  unique as well. When the administrator deletes an existing post, the users are
  untouched, exactly the rows with that id leave the posts table, and every comment is
  kept: those of the deleted post with their parent reference set to NULL, all others
  as they were.
\<close>

theorem comment_references_preserved:
  assumes "primary_keys s" and "comments_not_dangling s"
  shows "primary_keys (store (handle env req s sess)) \<and>
         comments_not_dangling (store (handle env req s sess)) \<and>
         (current_user s sess = LoggedIn u \<and> user_id u = 1 \<and>
          pid \<in> set (map post_id (blog_posts s)) \<longrightarrow>
            store (handle env \<lparr>req_method = GET, req_target = DeletePost pid, form_valid = v\<rparr> s sess) =
              \<lparr>users = users s,
               blog_posts = filter (\<lambda>q. post_id q \<noteq> pid) (blog_posts s),
               comments = map (\<lambda>c. if blog_post_id c = Some pid then c\<lparr>blog_post_id := None\<rparr> else c)
                            (comments s)\<rparr>)"
proof (intro conjI impI)
  show "primary_keys (store (handle env req s sess))"
    using handle_effect assms(1) by (rule primary_keys_effect)
  show "comments_not_dangling (store (handle env req s sess))"
    using handle_effect assms by (rule not_dangling_effect)
next
  assume a: "current_user s sess = LoggedIn u \<and> user_id u = 1 \<and>
      pid \<in> set (map post_id (blog_posts s))"
  then obtain p where p: "find (\<lambda>p. post_id p = pid) (blog_posts s) = Some p"
    by (cases "find (\<lambda>p. post_id p = pid) (blog_posts s)") (force simp: find_None_iff image_iff)+
  then have pid: "post_id p = pid"
    by (auto simp: find_Some_iff)
  have "commit_delete s p =
      \<lparr>users = users s,
       blog_posts = filter (\<lambda>q. post_id q \<noteq> pid) (blog_posts s),
       comments = map (\<lambda>c. if blog_post_id c = Some pid then c\<lparr>blog_post_id := None\<rparr> else c)
                    (comments s)\<rparr>"
    by (simp add: commit_delete_def orphan_def pid)
  with a p show "store (handle env
      \<lparr>req_method = GET, req_target = DeletePost pid, form_valid = v\<rparr> s sess) =
      \<lparr>users = users s,
       blog_posts = filter (\<lambda>q. post_id q \<noteq> pid) (blog_posts s),
       comments = map (\<lambda>c. if blog_post_id c = Some pid then c\<lparr>blog_post_id := None\<rparr> else c)
                    (comments s)\<rparr>"
    using delete_route_by_admin [of s sess u pid p env v] by simp
qed

theorem comment_references_preserved_witness:
  "primary_keys example_db \<and> comments_not_dangling example_db \<and>
   current_user example_db (Some 1) = LoggedIn alice \<and> user_id alice = 1 \<and>
   1 \<in> set (map post_id (blog_posts example_db)) \<and>
   primary_keys (store (handle example_env
      \<lparr>req_method = GET, req_target = DeletePost 1, form_valid = False\<rparr> example_db (Some 1))) \<and>
   comments_not_dangling (store (handle example_env
      \<lparr>req_method = GET, req_target = DeletePost 1, form_valid = False\<rparr> example_db (Some 1))) \<and>
   store (handle example_env
      \<lparr>req_method = GET, req_target = DeletePost 1, form_valid = False\<rparr> example_db (Some 1)) =
     \<lparr>users = [alice, bob], blog_posts = [], comments = [nice_post\<lparr>blog_post_id := None\<rparr>]\<rparr>"
proof -
  have k: "primary_keys example_db"
    by (simp add: primary_keys_def example_db_def alice_def bob_def)
  have n: "comments_not_dangling example_db"
    by (simp add: comments_not_dangling_def author_rows_def parent_rows_def
        example_db_def alice_def bob_def hello_world_def nice_post_def)
  have cu: "current_user example_db (Some 1) = LoggedIn alice"
    by (simp add: current_user_def load_user_def example_db_def alice_def)
  have ad: "user_id alice = 1"
    by (simp add: alice_def)
  have ex: "1 \<in> set (map post_id (blog_posts example_db))"
    by (simp add: example_db_def hello_world_def)
  note t = comment_references_preserved [OF k n, of example_env
      "\<lparr>req_method = GET, req_target = DeletePost 1, form_valid = False\<rparr>" "Some 1"
      alice 1 False]
  from t cu ad ex have "store (handle example_env
      \<lparr>req_method = GET, req_target = DeletePost 1, form_valid = False\<rparr> example_db (Some 1)) =
      \<lparr>users = users example_db,
       blog_posts = filter (\<lambda>q. post_id q \<noteq> 1) (blog_posts example_db),
       comments = map (\<lambda>c. if blog_post_id c = Some 1 then c\<lparr>blog_post_id := None\<rparr> else c)
                    (comments example_db)\<rparr>"
    by blast
  then have c: "store (handle example_env
      \<lparr>req_method = GET, req_target = DeletePost 1, form_valid = False\<rparr> example_db (Some 1)) =
     \<lparr>users = [alice, bob], blog_posts = [], comments = [nice_post\<lparr>blog_post_id := None\<rparr>]\<rparr>"
    by (simp add: example_db_def hello_world_def nice_post_def)
  show ?thesis
    by (intro conjI) (rule k n cu ad ex conjunct1 [OF t] conjunct1 [OF conjunct2 [OF t]] c)+
qed

section \<open>Deleting a post\<close>

text \<open>
  Claim C4 says that deleting a post id that does not exist returns a NotFound error
  rather than crashing. The administrator asking to delete post 7, which does not
  exist, gets the uncaught \<open>UnmappedInstanceError\<close> of \<^verbatim>\<open>db.session.delete(None)\<close>
  (status 500); deleting post 1, which exists, removes it and redirects to the list.
\<close>

theorem delete_missing_post_crashes:
  "current_user example_db (Some 1) = LoggedIn alice \<and> user_id alice = 1 \<and>
   find (\<lambda>p. post_id p = 7) (blog_posts example_db) = None \<and>
   handle example_env \<lparr>req_method = GET, req_target = DeletePost 7, form_valid = False\<rparr>
       example_db (Some 1) =
     \<lparr>response = Inl UnmappedInstanceError, flashes = [], store = example_db, session = Some 1\<rparr> \<and>
   handle example_env \<lparr>req_method = GET, req_target = DeletePost 1, form_valid = False\<rparr>
       example_db (Some 1) =
     \<lparr>response = Inr (RedirectTo ''get_all_posts''), flashes = [],
      store = \<lparr>users = [alice, bob], blog_posts = [],
               comments = [nice_post\<lparr>blog_post_id := None\<rparr>]\<rparr>,
      session = Some 1\<rparr>"
  by (simp add: handle_def route_def admin_required_def delete_post_def
      current_user_def load_user_def commit_delete_def orphan_def redirect_def raise_def abort_def
      example_db_def example_env_def alice_def bob_def hello_world_def nice_post_def)

section \<open>Login\<close>

text \<open>
  Claim C5. For every database, a submitted login with an unknown email and a submitted
  login with a known email and a wrong password get the same reply: the same flashed
  message, a redirect back to the login page, nobody logged in, nothing stored.
\<close>

theorem login_failures_uniform:
  assumes unknown: "find (\<lambda>u. email u = login_email f1) (users s) = None"
    and known: "find (\<lambda>u. email u = login_email f2) (users s) = Some u"
    and wrong: "\<not> check_password_hash env (password u) (login_password f2)"
    and submit: "validate_on_submit m valid"
  shows "login env f1 m valid s sess = login env f2 m valid s sess \<and>
         login env f1 m valid s sess =
           \<lparr>response = Inr (RedirectTo ''login''),
            flashes = [''That email or password is not correct.''], store = s, session = sess\<rparr>"
  using assms by (simp add: login_def redirect_def)

theorem login_failures_uniform_witness:
  "find (\<lambda>u. email u = ''carol@example.com'') (users example_db) = None \<and>
   find (\<lambda>u. email u = ''bob@example.com'') (users example_db) = Some bob \<and>
   \<not> check_password_hash example_env (password bob) ''guess'' \<and>
   validate_on_submit POST True \<and>
   login example_env \<lparr>login_email = ''carol@example.com'', login_password = ''cd''\<rparr> POST True example_db None =
   login example_env \<lparr>login_email = ''bob@example.com'', login_password = ''guess''\<rparr> POST True example_db None \<and>
   login example_env \<lparr>login_email = ''carol@example.com'', login_password = ''cd''\<rparr> POST True example_db None =
     \<lparr>response = Inr (RedirectTo ''login''),
      flashes = [''That email or password is not correct.''], store = example_db, session = None\<rparr> \<and>
   session (login example_env \<lparr>login_email = ''bob@example.com'', login_password = ''cd''\<rparr> POST True example_db None) = Some 2"
proof -
  have a: "find (\<lambda>u. email u = login_email \<lparr>login_email = ''carol@example.com'', login_password = ''cd''\<rparr>) (users example_db) = None"
    by (simp add: example_db_def alice_def bob_def)
  have b: "find (\<lambda>u. email u = login_email \<lparr>login_email = ''bob@example.com'', login_password = ''guess''\<rparr>) (users example_db) = Some bob"
    by (simp add: example_db_def alice_def bob_def)
  have c: "\<not> check_password_hash example_env (password bob) (login_password \<lparr>login_email = ''bob@example.com'', login_password = ''guess''\<rparr>)"
    by (simp add: example_env_def bob_def)
  have d: "validate_on_submit POST True"
    by (simp add: validate_on_submit_def is_submitted_def)
  have e: "session (login example_env \<lparr>login_email = ''bob@example.com'', login_password = ''cd''\<rparr> POST True example_db None) = Some 2"
    by (simp add: login_def validate_on_submit_def is_submitted_def example_db_def alice_def bob_def example_env_def)
  note t = login_failures_uniform [OF a b c d, of None]
  have a': "find (\<lambda>u. email u = ''carol@example.com'') (users example_db) = None"
    using a by simp
  have b': "find (\<lambda>u. email u = ''bob@example.com'') (users example_db) = Some bob"
    using b by simp
  have c': "\<not> check_password_hash example_env (password bob) ''guess''"
    using c by simp
  show ?thesis
    by (intro conjI) (rule a' b' c' d conjunct1 [OF t] conjunct2 [OF t] e)+
qed

section \<open>Registration\<close>

text \<open>
  Claim C6. For every database and every submitted registration: if the email is already
  in the users table, the reply flashes the already-signed-up message and the database is
  unchanged; otherwise exactly one row is appended, under a fresh id, with this email and
  the hashed password, and it is the only row with this email.
\<close>

theorem register_duplicate_or_new:
  assumes "validate_on_submit m valid"
  shows "(reg_email f \<in> set (map email (users s)) \<longrightarrow>
            register env f m valid s sess =
              \<lparr>response = Inr (RedirectTo ''login''), flashes = [already_signed_up],
               store = s, session = sess\<rparr>) \<and>
         (reg_email f \<notin> set (map email (users s)) \<longrightarrow>
            register env f m valid s sess =
              \<lparr>response = Inr (RedirectTo ''login''),
               flashes = [''Please login with your new email and password.''],
               store = s\<lparr>users := users s @
                 [\<lparr>user_id = next_id (map user_id (users s)), email = reg_email f,
                   password = generate_password_hash env (reg_password f) (salt env),
                   name = reg_name f\<rparr>]\<rparr>,
               session = sess\<rparr> \<and>
            next_id (map user_id (users s)) \<notin> set (map user_id (users s)) \<and>
            length (filter (\<lambda>u. email u = reg_email f)
              (users (store (register env f m valid s sess)))) = 1)"
proof (intro conjI impI)
  assume "reg_email f \<in> set (map email (users s))"
  then obtain u where "find (\<lambda>u. email u = reg_email f) (users s) = Some u"
    by (cases "find (\<lambda>u. email u = reg_email f) (users s)") (auto simp: find_None_iff)
  with assms show "register env f m valid s sess =
      \<lparr>response = Inr (RedirectTo ''login''), flashes = [already_signed_up],
       store = s, session = sess\<rparr>"
    by (simp add: register_def redirect_def)
next
  assume new: "reg_email f \<notin> set (map email (users s))"
  then have none: "find (\<lambda>u. email u = reg_email f) (users s) = None"
    by (force simp: find_None_iff image_iff)
  with assms new show reply: "register env f m valid s sess =
      \<lparr>response = Inr (RedirectTo ''login''),
       flashes = [''Please login with your new email and password.''],
       store = s\<lparr>users := users s @
         [\<lparr>user_id = next_id (map user_id (users s)), email = reg_email f,
           password = generate_password_hash env (reg_password f) (salt env),
           name = reg_name f\<rparr>]\<rparr>,
       session = sess\<rparr>"
    by (simp add: register_def redirect_def commit_user_def)
  from none have "filter (\<lambda>u. email u = reg_email f) (users s) = []"
    by (simp add: find_None_iff filter_empty_conv)
  then show "length (filter (\<lambda>u. email u = reg_email f)
      (users (store (register env f m valid s sess)))) = 1"
    by (simp add: reply)
next
  show "next_id (map user_id (users s)) \<notin> set (map user_id (users s))"
    by (rule next_id_fresh)
qed

theorem register_duplicate_or_new_witness:
  "validate_on_submit POST True \<and>
   register example_env \<lparr>reg_email = ''bob@example.com'', reg_password = ''pw2'', reg_name = ''Robert''\<rparr>
       POST True example_db None =
     \<lparr>response = Inr (RedirectTo ''login''), flashes = [already_signed_up],
      store = example_db, session = None\<rparr> \<and>
   users (store (register example_env
       \<lparr>reg_email = ''carol@example.com'', reg_password = ''pw'', reg_name = ''Carol''\<rparr>
       POST True example_db None)) =
     [alice, bob, \<lparr>user_id = 3, email = ''carol@example.com'', password = ''s8wp'', name = ''Carol''\<rparr>]"
proof -
  have d: "validate_on_submit POST True"
    by (simp add: validate_on_submit_def is_submitted_def)
  have dup: "reg_email \<lparr>reg_email = ''bob@example.com'', reg_password = ''pw2'', reg_name = ''Robert''\<rparr>
      \<in> set (map email (users example_db))"
    by (simp add: example_db_def alice_def bob_def)
  have new: "reg_email \<lparr>reg_email = ''carol@example.com'', reg_password = ''pw'', reg_name = ''Carol''\<rparr>
      \<notin> set (map email (users example_db))"
    by (simp add: example_db_def alice_def bob_def)
  note t = register_duplicate_or_new [OF d, of _ example_db example_env None]
  from t dup have 1: "register example_env
      \<lparr>reg_email = ''bob@example.com'', reg_password = ''pw2'', reg_name = ''Robert''\<rparr>
       POST True example_db None =
     \<lparr>response = Inr (RedirectTo ''login''), flashes = [already_signed_up],
      store = example_db, session = None\<rparr>" by blast
  from t new have "register example_env
      \<lparr>reg_email = ''carol@example.com'', reg_password = ''pw'', reg_name = ''Carol''\<rparr>
       POST True example_db None =
     \<lparr>response = Inr (RedirectTo ''login''),
               flashes = [''Please login with your new email and password.''],
               store = example_db\<lparr>users := users example_db @
                 [\<lparr>user_id = next_id (map user_id (users example_db)),
                   email = reg_email \<lparr>reg_email = ''carol@example.com'', reg_password = ''pw'', reg_name = ''Carol''\<rparr>,
                   password = generate_password_hash example_env (reg_password \<lparr>reg_email = ''carol@example.com'', reg_password = ''pw'', reg_name = ''Carol''\<rparr>) (salt example_env),
                   name = reg_name \<lparr>reg_email = ''carol@example.com'', reg_password = ''pw'', reg_name = ''Carol''\<rparr>\<rparr>]\<rparr>,
               session = None\<rparr>" by blast
  then have 2: "users (store (register example_env
       \<lparr>reg_email = ''carol@example.com'', reg_password = ''pw'', reg_name = ''Carol''\<rparr>
       POST True example_db None)) =
     [alice, bob, \<lparr>user_id = 3, email = ''carol@example.com'', password = ''s8wp'', name = ''Carol''\<rparr>]"
    by (simp add: example_db_def example_env_def next_id_def alice_def bob_def)
  show ?thesis by (intro conjI) (rule d 1 2)+
qed

section \<open>The admin check\<close>

text \<open>
  Claim C7. For every identity, the admin check grants access (the reply is that of the
  guarded view) if the identity is a logged-in user whose id is 1, and in every other
  case, anonymous or not, the reply is the 403 abort with database and session untouched,
  whatever the guarded view is.
\<close>

theorem admin_required_iff:
  "((\<exists>u. cu = LoggedIn u \<and> user_id u = 1) \<longrightarrow> admin_required cu func s sess = func s sess) \<and>
   (\<not> (\<exists>u. cu = LoggedIn u \<and> user_id u = 1) \<longrightarrow>
      admin_required cu func s sess =
        \<lparr>response = Inl (HTTPException 403), flashes = [], store = s, session = sess\<rparr>)"
  by (cases cu) (simp_all add: admin_required_def abort_def raise_def)

theorem admin_required_iff_witness:
  "admin_required (LoggedIn alice) (delete_post 1) example_db (Some 1) = delete_post 1 example_db (Some 1) \<and>
   admin_required (LoggedIn bob) (delete_post 1) example_db (Some 2) =
     \<lparr>response = Inl (HTTPException 403), flashes = [], store = example_db, session = Some 2\<rparr> \<and>
   admin_required AnonymousUser (delete_post 1) example_db None =
     \<lparr>response = Inl (HTTPException 403), flashes = [], store = example_db, session = None\<rparr> \<and>
   store (delete_post 1 example_db (Some 1)) \<noteq> example_db"
  using admin_required_iff [of "LoggedIn alice" "delete_post 1" example_db "Some 1"]
    admin_required_iff [of "LoggedIn bob" "delete_post 1" example_db "Some 2"]
    admin_required_iff [of AnonymousUser "delete_post 1" example_db None]
  by (simp add: alice_def bob_def delete_post_def example_db_def hello_world_def commit_delete_def)

section \<open>Unique titles\<close>

text \<open>
  Claim C8 says that titles are globally unique and that creating a post under a title
  already present fails with DuplicateTitle, the count of posts with that title staying
  at 1. The titles are indeed pairwise distinct in every reachable database (lemma
  \<open>reachable_titles\<close>) and the count stays at 1, but the failure is not a reported
  DuplicateTitle: \<^verbatim>\<open>add_new_post\<close> neither checks the title first, as \<^verbatim>\<open>register\<close> does
  for the email, nor catches the commit's exception. Here the administrator submits the
  title of the existing post in a reachable database, and the request ends in the
  uncaught \<open>IntegrityError\<close> (status 500) with nothing flashed.
\<close>

theorem duplicate_title_crashes:
  "reachable example_db \<and>
   current_user example_db (Some 1) = LoggedIn alice \<and>
   form_title hello_form \<in> set (map title (blog_posts example_db)) \<and>
   handle example_env \<lparr>req_method = POST, req_target = NewPost hello_form, form_valid = True\<rparr>
       example_db (Some 1) =
     \<lparr>response = Inl (IntegrityError ''blog_posts.title''), flashes = [], store = example_db,
      session = Some 1\<rparr> \<and>
   length (filter (\<lambda>p. title p = ''Hello World'') (blog_posts example_db)) = 1"
proof (intro conjI)
  show "reachable example_db" by (rule example_db_reachable)
  show "current_user example_db (Some 1) = LoggedIn alice"
    by (simp add: current_user_def load_user_def example_db_def alice_def)
  show "form_title hello_form \<in> set (map title (blog_posts example_db))"
    by (simp add: hello_form_def example_db_def hello_world_def)
  show "handle example_env \<lparr>req_method = POST, req_target = NewPost hello_form, form_valid = True\<rparr>
       example_db (Some 1) =
     \<lparr>response = Inl (IntegrityError ''blog_posts.title''), flashes = [], store = example_db,
      session = Some 1\<rparr>"
    by (simp add: handle_def route_def add_new_post_def submit_post commit_post_def raise_def
        current_user_def load_user_def example_db_def alice_def hello_form_def hello_world_def)
  show "length (filter (\<lambda>p. title p = ''Hello World'') (blog_posts example_db)) = 1"
    by (simp add: example_db_def hello_world_def)
qed

section \<open>The edit route\<close>

text \<open>
  Claim C10. Every request to the edit route leaves the database unchanged: the rule
  lists no methods, so a method other than GET (and HEAD and OPTIONS, which come with it)
  is refused with 405 before the view runs, and under GET \<^verbatim>\<open>validate_on_submit\<close> is false,
  so the view only builds the form and renders it. The witness shows that the view's
  submission branch, were it reached, would change the database.
\<close>

theorem edit_post_route_read_only:
  "store (handle env \<lparr>req_method = m, req_target = EditPost pid f, form_valid = v\<rparr> s sess) = s \<and>
   (m \<notin> {GET, HEAD, OPTIONS} \<longrightarrow>
      response (handle env \<lparr>req_method = m, req_target = EditPost pid f, form_valid = v\<rparr> s sess) =
        Inl (HTTPException 405)) \<and>
   \<not> validate_on_submit GET v \<and>
   handle env \<lparr>req_method = GET, req_target = EditPost pid f, form_valid = v\<rparr> s sess =
     admin_required (current_user s sess)
       (\<lambda>s sess. case find (\<lambda>p. post_id p = pid) (blog_posts s) of
           None \<Rightarrow> raise AttributeError s sess
         | Some post \<Rightarrow> render_template ''make-post.html'' s sess) s sess"
proof (intro conjI impI)
  show "store (handle env \<lparr>req_method = m, req_target = EditPost pid f, form_valid = v\<rparr> s sess) = s"
    by (simp add: handle_def Let_def store_edit_route)
  show "\<not> validate_on_submit GET v"
    by (simp add: validate_on_submit_def is_submitted_def)
  then show "handle env \<lparr>req_method = GET, req_target = EditPost pid f, form_valid = v\<rparr> s sess =
     admin_required (current_user s sess)
       (\<lambda>s sess. case find (\<lambda>p. post_id p = pid) (blog_posts s) of
           None \<Rightarrow> raise AttributeError s sess
         | Some post \<Rightarrow> render_template ''make-post.html'' s sess) s sess"
    by (simp add: handle_def Let_def route_get_only admin_required_def edit_post_def split: option.splits)
next
  assume "m \<notin> {GET, HEAD, OPTIONS}"
  then show "response (handle env \<lparr>req_method = m, req_target = EditPost pid f, form_valid = v\<rparr> s sess) =
        Inl (HTTPException 405)"
    by (simp add: handle_def Let_def route_get_only)
qed

theorem edit_post_route_read_only_witness:
  "POST \<notin> {GET, HEAD, OPTIONS} \<and>
   response (handle example_env \<lparr>req_method = POST, req_target = EditPost 1 second_form, form_valid = True\<rparr>
      example_db (Some 1)) = Inl (HTTPException 405) \<and>
   store (handle example_env \<lparr>req_method = POST, req_target = EditPost 1 second_form, form_valid = True\<rparr>
      example_db (Some 1)) = example_db \<and>
   store (edit_post 1 second_form POST True example_db (Some 1)) \<noteq> example_db"
proof -
  have p: "POST \<notin> {GET, HEAD, OPTIONS}" by simp
  note t = edit_post_route_read_only [of example_env POST 1 second_form True example_db "Some 1"]
  from t p have r: "response (handle example_env
      \<lparr>req_method = POST, req_target = EditPost 1 second_form, form_valid = True\<rparr>
      example_db (Some 1)) = Inl (HTTPException 405)" by blast
  have e: "store (edit_post 1 second_form POST True example_db (Some 1)) \<noteq> example_db"
    by (simp add: edit_post_def validate_on_submit_def is_submitted_def example_db_def
        hello_world_def second_form_def commit_update_def)
  show ?thesis by (intro conjI) (rule p r conjunct1 [OF t] e)+
qed

end
